theory Spec2Isabelle
  imports Main
begin

section \<open>The thing service: data model\<close>

text \<open>
  The service of \<^verbatim>\<open>main.py\<close> keeps one table, \<^verbatim>\<open>thing\<close>, and serves five
  requests on it. A row of the table is the mapped class \<^verbatim>\<open>Thing\<close>: an integer primary
  key \<^verbatim>\<open>id\<close> and a column \<^verbatim>\<open>text\<close>. The column is declared \<^verbatim>\<open>nullable=False\<close>; that
  is a constraint the store checks when it writes, not a property of the Python attribute,
  so the model keeps the column as an optional string and lets the write operations
  enforce the constraint. (\<open>id\<close> is a constant of HOL and \<open>text\<close> a keyword, hence the
  suffixed field names.)
\<close>

record Thing =
  id_col :: int
  text_col :: "string option"

text \<open>
  The API model \<^verbatim>\<open>ThingModel\<close>: \<^verbatim>\<open>id: Optional[int]\<close>, \<^verbatim>\<open>text: str\<close>. A request body has
  passed validation before a handler sees it, so its text is a string.
\<close>

record ThingModel =
  id_field :: "int option"
  text_field :: string

text \<open>
  What a handler can raise: assigning an attribute of \<^verbatim>\<open>None\<close>
  (\<open>AttributeError\<close>), \<^verbatim>\<open>session.delete(None)\<close> (\<open>UnmappedInstanceError\<close>), building a
  \<^verbatim>\<open>ThingModel\<close> from a null text (\<open>ValidationError\<close>), writing a null into the
  \<^verbatim>\<open>NOT NULL\<close> column (\<open>IntegrityError\<close>), and an insert for which the store finds
  no unused key (\<open>DatabaseFull\<close>, the store's \<^verbatim>\<open>SQLITE_FULL\<close>).
\<close>

datatype error =
  AttributeError
  | UnmappedInstanceError
  | ValidationError
  | IntegrityError
  | DatabaseFull

section \<open>The store\<close>

text \<open>
  The table is the list of its rows in the order a \<^verbatim>\<open>SELECT\<close> without \<^verbatim>\<open>ORDER BY\<close> reads
  them, which is the order of their keys. The database file either has the table or does
  not.
\<close>

type_synonym table = "Thing list"

type_synonym database = "table option"

text \<open>
  \<^verbatim>\<open>Base.metadata.drop_all\<close> drops the table when it exists;
  \<^verbatim>\<open>Base.metadata.create_all\<close> creates it, empty, when it does not exist and leaves an
  existing table alone.
\<close>

definition drop_all :: "database \<Rightarrow> database" where
  "drop_all db = None"

definition create_all :: "database \<Rightarrow> database" where
  "create_all db = (case db of None \<Rightarrow> Some [] | Some rows \<Rightarrow> Some rows)"

text \<open>
  The handlers take the path parameter \<^verbatim>\<open>id\<close> as a string and hand it to
  \<^verbatim>\<open>session.get\<close> as it is, so it is the store that reads the string as a key, in the
  comparison \<^verbatim>\<open>thing.id = ?\<close>. That conversion is not part of \<^verbatim>\<open>main.py\<close>; every
  operation that looks a row up takes it as the parameter \<open>key_of\<close>, where
  \<open>key_of s = None\<close> means that \<open>s\<close> is not read as any integer.
\<close>

type_synonym key_reader = "string \<Rightarrow> int option"

definition session_get :: "key_reader \<Rightarrow> string \<Rightarrow> table \<Rightarrow> Thing option" where
  "session_get key_of ident rows =
     (case key_of ident of
        None \<Rightarrow> None
      | Some k \<Rightarrow> find (\<lambda>r. id_col r = k) rows)"

definition has_key :: "table \<Rightarrow> int \<Rightarrow> bool" where
  "has_key rows k = list_ex (\<lambda>r. id_col r = k) rows"

text \<open>
  Keys are 64-bit signed integers. An insert without a key takes 1 in an empty table and
  otherwise one more than the largest key in use, as long as the largest key is below
  \<open>MAX_ROWID\<close>. When the largest key is \<open>MAX_ROWID\<close> the store draws keys at random: it
  masks each random 64-bit value to 62 bits and adds one, takes the first such candidate
  that is not in use, and gives up after 100 candidates in use. The random values are not
  part of \<^verbatim>\<open>main.py\<close>; an insert takes them as the parameter \<open>draws\<close>, where
  \<open>draws i\<close> is the \<open>i\<close>-th value drawn.
\<close>

type_synonym draws = "nat \<Rightarrow> int"

definition MAX_ROWID :: int where
  "MAX_ROWID = 9223372036854775807"

definition random_rowid :: "draws \<Rightarrow> table \<Rightarrow> int option" where
  "random_rowid draws rows =
     find (\<lambda>v. \<not> has_key rows v) (map (\<lambda>i. draws i mod 2 ^ 62 + 1) [0..<100])"

definition new_rowid :: "draws \<Rightarrow> table \<Rightarrow> int option" where
  "new_rowid draws rows =
     (if rows = [] then Some 1
      else let v = Max (set (map id_col rows))
           in if v < MAX_ROWID then Some (v + 1) else random_rowid draws rows)"

text \<open>
  The three statements a commit flushes. \<open>sql_insert\<close> puts the new row at its place in
  the order of the keys, which is the end of the table when the key is one more than
  the largest, and returns the key it assigned next to the new table; \<open>sql_update\<close> and
  \<open>sql_delete\<close> act on the rows whose key is \<open>k\<close> (\<^verbatim>\<open>WHERE thing.id = ?\<close>).
\<close>

definition sql_insert :: "draws \<Rightarrow> string option \<Rightarrow> table \<Rightarrow> error + (int \<times> table)" where
  "sql_insert draws txt rows =
     (case txt of
        None \<Rightarrow> Inl IntegrityError
      | Some t \<Rightarrow>
          (case new_rowid draws rows of
             None \<Rightarrow> Inl DatabaseFull
           | Some k \<Rightarrow> Inr (k, insort_key id_col \<lparr>id_col = k, text_col = Some t\<rparr> rows)))"

definition sql_update :: "int \<Rightarrow> string option \<Rightarrow> table \<Rightarrow> error + table" where
  "sql_update k txt rows =
     (case txt of
        None \<Rightarrow> Inl IntegrityError
      | Some t \<Rightarrow> Inr (map (\<lambda>r. if id_col r = k then r\<lparr>text_col := Some t\<rparr> else r) rows))"

definition sql_delete :: "int \<Rightarrow> table \<Rightarrow> table" where
  "sql_delete k rows = filter (\<lambda>r. id_col r \<noteq> k) rows"

section \<open>Startup\<close>

definition create_db_and_tables :: "database \<Rightarrow> database" where
  "create_db_and_tables db = create_all (drop_all db)"

definition on_startup :: "database \<Rightarrow> database" where
  "on_startup db = create_db_and_tables db"

section \<open>The handlers\<close>

text \<open>
  \<^verbatim>\<open>ThingModel(id=..., text=...)\<close>: the constructor validates its arguments, and a null
  text is refused.
\<close>

definition ThingModel_new :: "int option \<Rightarrow> string option \<Rightarrow> error + ThingModel" where
  "ThingModel_new i txt =
     (case txt of
        None \<Rightarrow> Inl ValidationError
      | Some t \<Rightarrow> Inr \<lparr>id_field = i, text_field = t\<rparr>)"

text \<open>
  The comprehension of \<^verbatim>\<open>get_things\<close>, one model per row in the order of the rows; the
  first constructor that raises ends it.
\<close>

fun thing_models :: "Thing list \<Rightarrow> error + ThingModel list" where
  "thing_models [] = Inr []"
| "thing_models (thing # things) =
     (case ThingModel_new (Some (id_col thing)) (text_col thing) of
        Inl e \<Rightarrow> Inl e
      | Inr m \<Rightarrow>
          (case thing_models things of
             Inl e \<Rightarrow> Inl e
           | Inr ms \<Rightarrow> Inr (m # ms)))"

text \<open>
  Each handler runs in a session of its own: it takes the table and returns its response,
  or the exception it raised, with the table it leaves behind. A handler that raises
  before \<^verbatim>\<open>session.commit()\<close> leaves the table as it found it.
\<close>

definition get_things :: "table \<Rightarrow> (error + ThingModel list) \<times> table" where
  "get_things rows =
     (case thing_models rows of
        Inl e \<Rightarrow> (Inl e, rows)
      | Inr ms \<Rightarrow> (Inr ms, rows))"

definition get_thing :: "key_reader \<Rightarrow> string \<Rightarrow> table \<Rightarrow> (error + ThingModel option) \<times> table" where
  "get_thing key_of ident rows =
     (case session_get key_of ident rows of
        None \<Rightarrow> (Inr None, rows)
      | Some thing \<Rightarrow>
          (case ThingModel_new (Some (id_col thing)) (text_col thing) of
             Inl e \<Rightarrow> (Inl e, rows)
           | Inr m \<Rightarrow> (Inr (Some m), rows)))"

definition post_thing :: "draws \<Rightarrow> ThingModel \<Rightarrow> table \<Rightarrow> (error + unit) \<times> table" where
  "post_thing draws thing rows =
     (case sql_insert draws (Some (text_field thing)) rows of
        Inl e \<Rightarrow> (Inl e, rows)
      | Inr (k, rows') \<Rightarrow> (Inr (), rows'))"

definition delete_thing :: "key_reader \<Rightarrow> string \<Rightarrow> table \<Rightarrow> (error + unit) \<times> table" where
  "delete_thing key_of ident rows =
     (case session_get key_of ident rows of
        None \<Rightarrow> (Inl UnmappedInstanceError, rows)
      | Some thing \<Rightarrow> (Inr (), sql_delete (id_col thing) rows))"

definition put_thing ::
  "key_reader \<Rightarrow> string \<Rightarrow> ThingModel \<Rightarrow> table \<Rightarrow> (error + unit) \<times> table" where
  "put_thing key_of ident new_thing rows =
     (case session_get key_of ident rows of
        None \<Rightarrow> (Inl AttributeError, rows)
      | Some thing \<Rightarrow>
          (case sql_update (id_col thing) (Some (text_field new_thing)) rows of
             Inl e \<Rightarrow> (Inl e, rows)
           | Inr rows' \<Rightarrow> (Inr (), rows')))"

section \<open>Requests\<close>

text \<open>
  The five routes of the application, and the table a request leaves behind. A POST is
  listed with the random values the store would draw while it serves that request.
\<close>

datatype request =
  GetThings
  | GetThing string
  | PostThing draws ThingModel
  | DeleteThing string
  | PutThing string ThingModel

fun serve :: "key_reader \<Rightarrow> request \<Rightarrow> table \<Rightarrow> table" where
  "serve key_of GetThings rows = snd (get_things rows)"
| "serve key_of (GetThing ident) rows = snd (get_thing key_of ident rows)"
| "serve key_of (PostThing draws thing) rows = snd (post_thing draws thing rows)"
| "serve key_of (DeleteThing ident) rows = snd (delete_thing key_of ident rows)"
| "serve key_of (PutThing ident new_thing) rows = snd (put_thing key_of ident new_thing rows)"

text \<open>
  A run of POST requests, each with the random values of its own, one after the other,
  up to the first that fails.
\<close>

fun post_all :: "(draws \<times> ThingModel) list \<Rightarrow> table \<Rightarrow> error + table" where
  "post_all [] rows = Inr rows"
| "post_all (thing # things) rows =
     (case post_thing (fst thing) (snd thing) rows of
        (Inl e, _) \<Rightarrow> Inl e
      | (Inr _, rows') \<Rightarrow> post_all things rows')"

text \<open>
  The column constraint as a property of a table, and a path id that is read as the key
  of a row.
\<close>

definition non_null_text :: "table \<Rightarrow> bool" where
  "non_null_text rows = list_all (\<lambda>r. text_col r \<noteq> None) rows"

definition row_matches :: "key_reader \<Rightarrow> string \<Rightarrow> table \<Rightarrow> bool" where
  "row_matches key_of ident rows =
     (case key_of ident of
        None \<Rightarrow> False
      | Some k \<Rightarrow> has_key rows k)"

text \<open>
  A reader of path segments to evaluate the handlers with. It reads an unsigned decimal
  numeral as the number it denotes, as the store does, and any other string as no key.
  The store reads more strings as keys than that (a sign, blanks around the number, a
  fraction or an exponent that leaves an integer), so this reader stands for the store
  only at unsigned numerals and at strings that are no number at all. The properties
  below are stated for every reader.
\<close>

definition digit_of :: "char \<Rightarrow> int option" where
  "digit_of c = map_of (zip ''0123456789'' [0, 1, 2, 3, 4, 5, 6, 7, 8, 9]) c"

fun decimal_acc :: "int \<Rightarrow> string \<Rightarrow> int option" where
  "decimal_acc a [] = Some a"
| "decimal_acc a (c # cs) =
     (case digit_of c of
        None \<Rightarrow> None
      | Some d \<Rightarrow> decimal_acc (10 * a + d) cs)"

definition decimal_key :: key_reader where
  "decimal_key s = (if s = [] then None else decimal_acc 0 s)"


text \<open>
  What the keys of a table filled from empty by inserts alone satisfy: none exceeds the
  number of rows.
\<close>

definition keys_bounded :: "table \<Rightarrow> bool" where
  "keys_bounded rows = list_all (\<lambda>r. id_col r \<le> int (length rows)) rows"

section \<open>Looking rows up\<close>

lemma find_no_key: "\<not> has_key rows k \<Longrightarrow> find (\<lambda>r. id_col r = k) rows = None"
  by (induction rows) (auto simp: has_key_def)

lemma find_has_key:
  "has_key rows k \<Longrightarrow> \<exists>r. find (\<lambda>r. id_col r = k) rows = Some r \<and> id_col r = k \<and> r \<in> set rows"
  by (induction rows) (auto simp: has_key_def)

lemma session_get_absent:
  "\<not> row_matches key_of ident rows \<Longrightarrow> session_get key_of ident rows = None"
  by (auto simp: row_matches_def session_get_def find_no_key split: option.splits)

lemma session_get_present:
  "row_matches key_of ident rows \<Longrightarrow>
     \<exists>r. session_get key_of ident rows = Some r \<and> key_of ident = Some (id_col r) \<and> r \<in> set rows"
  using find_has_key by (fastforce simp: row_matches_def session_get_def split: option.splits)

lemma has_key_update:
  "has_key (map (\<lambda>r. if id_col r = k then r\<lparr>text_col := t\<rparr> else r) rows) j = has_key rows j"
  by (induction rows) (auto simp: has_key_def)

lemma find_update:
  "has_key rows k \<Longrightarrow>
   \<exists>r. find (\<lambda>r. id_col r = k) (map (\<lambda>r. if id_col r = k then r\<lparr>text_col := t\<rparr> else r) rows) = Some r
      \<and> id_col r = k \<and> text_col r = t"
  by (induction rows) (auto simp: has_key_def)

lemma has_key_delete: "\<not> has_key (sql_delete k rows) k"
  by (induction rows) (auto simp: has_key_def sql_delete_def)

lemma random_rowid_fresh: "random_rowid draws rows = Some k \<Longrightarrow> \<not> has_key rows k"
  by (auto simp: random_rowid_def find_Some_iff)

lemma largest_key_ge:
  assumes "has_key rows k"
  shows "k \<le> Max (set (map id_col rows))"
proof -
  from assms have "k \<in> set (map id_col rows)"
    by (auto simp: has_key_def list_ex_iff)
  then show ?thesis by (intro Max_ge) auto
qed

lemma new_rowid_fresh: "new_rowid draws rows = Some k \<Longrightarrow> \<not> has_key rows k"
proof
  assume n: "new_rowid draws rows = Some k" and h: "has_key rows k"
  from h have ne: "rows \<noteq> []" by (auto simp: has_key_def)
  show False
  proof (cases "Max (set (map id_col rows)) < MAX_ROWID")
    case True
    with n ne have "k = Max (set (map id_col rows)) + 1"
      by (simp add: new_rowid_def Let_def del: Max_less_iff)
    with largest_key_ge[OF h] show False by simp
  next
    case False
    with n ne have "random_rowid draws rows = Some k"
      by (simp add: new_rowid_def Let_def del: Max_less_iff)
    with random_rowid_fresh h show False by blast
  qed
qed

lemma find_insort_fresh:
  "\<not> has_key rows k \<Longrightarrow> id_col r = k \<Longrightarrow>
     find (\<lambda>r. id_col r = k) (insort_key id_col r rows) = Some r"
  by (induction rows) (auto simp: has_key_def)

lemma filter_no_key: "\<not> has_key rows k \<Longrightarrow> filter (\<lambda>x. id_col x = k) rows = []"
  by (induction rows) (auto simp: has_key_def)

lemma filter_others_no_key: "\<not> has_key rows k \<Longrightarrow> filter (\<lambda>x. id_col x \<noteq> k) rows = rows"
  by (induction rows) (auto simp: has_key_def)

lemma filter_insort_same:
  "\<not> has_key rows k \<Longrightarrow> id_col r = k \<Longrightarrow>
     filter (\<lambda>x. id_col x = k) (insort_key id_col r rows) = [r]"
proof (induction rows)
  case Nil
  then show ?case by simp
next
  case (Cons a rows)
  from Cons.prems have "id_col a \<noteq> k" "\<not> has_key rows k" by (auto simp: has_key_def)
  with Cons show ?case by (simp add: filter_no_key)
qed

lemma filter_insort_others:
  "\<not> has_key rows k \<Longrightarrow> id_col r = k \<Longrightarrow>
     filter (\<lambda>x. id_col x \<noteq> k) (insort_key id_col r rows) = rows"
  by (simp add: filter_insort_triv filter_others_no_key)

lemma insort_largest:
  "\<forall>x\<in>set rows. id_col x < id_col r \<Longrightarrow> insort_key id_col r rows = rows @ [r]"
  by (induction rows) auto

lemma thing_models_non_null:
  "non_null_text rows \<Longrightarrow> \<exists>ms. thing_models rows = Inr ms \<and> length ms = length rows"
  by (induction rows) (auto simp: non_null_text_def ThingModel_new_def)

lemma post_thing_cases:
  "post_thing draws thing rows = (Inr u, rows') \<Longrightarrow>
     \<exists>k. new_rowid draws rows = Some k
       \<and> rows' = insort_key id_col \<lparr>id_col = k, text_col = Some (text_field thing)\<rparr> rows"
  by (auto simp: post_thing_def sql_insert_def split: option.splits)

lemma post_thing_succeeds_iff:
  "(\<exists>rows'. post_thing draws thing rows = (Inr (), rows')) \<longleftrightarrow> new_rowid draws rows \<noteq> None"
  by (auto simp: post_thing_def sql_insert_def split: option.splits)

lemma sql_insert_keeps_key_order:
  "sql_insert draws txt rows = Inr (k, rows') \<Longrightarrow> sorted (map id_col rows) \<Longrightarrow>
     sorted (map id_col rows')"
  by (auto simp: sql_insert_def sorted_insort_key split: option.splits)

lemma non_null_post: "non_null_text rows \<Longrightarrow> non_null_text (snd (post_thing draws thing rows))"
  by (auto simp: post_thing_def sql_insert_def non_null_text_def list_all_iff set_insort_key
      split: option.splits)

lemma non_null_put: "non_null_text rows \<Longrightarrow> non_null_text (snd (put_thing key_of ident new_thing rows))"
  by (auto simp: put_thing_def sql_update_def non_null_text_def list_all_iff split: option.splits)

lemma non_null_delete: "non_null_text rows \<Longrightarrow> non_null_text (snd (delete_thing key_of ident rows))"
  by (auto simp: delete_thing_def sql_delete_def non_null_text_def list_all_iff split: option.splits)

lemma snd_get_thing: "snd (get_thing key_of ident rows) = rows"
  by (auto simp: get_thing_def split: option.splits sum.splits)

lemma snd_get_things: "snd (get_things rows) = rows"
  by (auto simp: get_things_def split: sum.splits)

lemma non_null_serve: "non_null_text rows \<Longrightarrow> non_null_text (serve key_of req rows)"
  by (cases req) (simp_all add: snd_get_thing snd_get_things non_null_post non_null_put non_null_delete)

lemma non_null_fold:
  "non_null_text rows \<Longrightarrow> non_null_text (fold (serve key_of) reqs rows)"
  by (induction reqs arbitrary: rows) (simp_all add: non_null_serve)

lemma post_all_length:
  "post_all things rows = Inr rows' \<Longrightarrow> non_null_text rows \<Longrightarrow>
     length rows' = length rows + length things \<and> non_null_text rows'"
proof (induction things arbitrary: rows)
  case Nil
  then show ?case by simp
next
  case (Cons thing things)
  obtain res rows1 where p: "post_thing (fst thing) (snd thing) rows = (res, rows1)"
    by (cases "post_thing (fst thing) (snd thing) rows")
  with Cons.prems obtain u where r: "res = Inr u" by (cases res) auto
  from p r post_thing_cases obtain k where
    k: "rows1 = insort_key id_col \<lparr>id_col = k, text_col = Some (text_field (snd thing))\<rparr> rows"
    by blast
  from Cons.prems(2) non_null_post[of rows "fst thing" "snd thing"] p have nn: "non_null_text rows1"
    by simp
  from Cons.prems(1) p r have "post_all things rows1 = Inr rows'" by simp
  from Cons.IH[OF this nn] k show ?case by simp
qed

section \<open>Inserting from the empty table\<close>

lemma new_rowid_bounded:
  assumes "keys_bounded rows" and "int (length rows) < MAX_ROWID"
  shows "\<exists>k. new_rowid draws rows = Some k \<and> k \<le> int (length rows) + 1"
proof (cases "rows = []")
  case True
  then show ?thesis by (simp add: new_rowid_def)
next
  case False
  from assms(1) have "\<forall>a\<in>set (map id_col rows). a \<le> int (length rows)"
    by (auto simp: keys_bounded_def list_all_iff)
  with False have m: "Max (set (map id_col rows)) \<le> int (length rows)"
    by (intro Max.boundedI) auto
  with assms(2) have "Max (set (map id_col rows)) < MAX_ROWID" by linarith
  with False have "new_rowid draws rows = Some (Max (set (map id_col rows)) + 1)"
    unfolding new_rowid_def Let_def by (simp only: if_True if_False)
  with m show ?thesis by simp
qed

lemma post_all_succeeds_from:
  "keys_bounded rows \<Longrightarrow> int (length rows) + int (length things) \<le> MAX_ROWID \<Longrightarrow>
     \<exists>rows'. post_all things rows = Inr rows'"
proof (induction things arbitrary: rows)
  case Nil
  then show ?case by simp
next
  case (Cons thing things)
  from Cons.prems have "int (length rows) < MAX_ROWID" by simp
  from new_rowid_bounded[OF Cons.prems(1) this, of "fst thing"] obtain k where
    k: "new_rowid (fst thing) rows = Some k" "k \<le> int (length rows) + 1" by blast
  let ?rows1 = "insort_key id_col \<lparr>id_col = k, text_col = Some (text_field (snd thing))\<rparr> rows"
  from k(1) have p: "post_thing (fst thing) (snd thing) rows = (Inr (), ?rows1)"
    by (simp add: post_thing_def sql_insert_def)
  from Cons.prems(1) k(2) have b: "keys_bounded ?rows1"
    by (auto simp: keys_bounded_def list_all_iff set_insort_key)
  from Cons.prems(2) have "int (length ?rows1) + int (length things) \<le> MAX_ROWID" by simp
  from Cons.IH[OF b this] p show ?case by simp
qed

lemma post_all_succeeds:
  "int (length things) \<le> MAX_ROWID \<Longrightarrow> \<exists>rows. post_all things [] = Inr rows"
  using post_all_succeeds_from[of "[]" things] by (simp add: keys_bounded_def)

section \<open>The order of the keys\<close>

text \<open>
  Below \<open>MAX_ROWID\<close> an insert ignores the random values and puts the new row last.
  Every request on a table that is in the order of its keys leaves such a table, so
  every table reached from the empty one is in that order.
\<close>

lemma sql_insert_largest_plus_one:
  assumes "rows \<noteq> []" and "Max (set (map id_col rows)) < MAX_ROWID"
  shows "sql_insert draws (Some t) rows
           = Inr (Max (set (map id_col rows)) + 1,
                  rows @ [\<lparr>id_col = Max (set (map id_col rows)) + 1, text_col = Some t\<rparr>])"
proof -
  let ?k = "Max (set (map id_col rows)) + 1"
  from assms have n: "new_rowid draws rows = Some ?k"
    unfolding new_rowid_def Let_def by (simp only: if_True if_False)
  have "\<forall>x\<in>set rows. id_col x < ?k"
  proof
    fix x assume "x \<in> set rows"
    then have "has_key rows (id_col x)" by (auto simp: has_key_def list_ex_iff)
    from largest_key_ge[OF this] show "id_col x < ?k" by simp
  qed
  then have "insort_key id_col \<lparr>id_col = ?k, text_col = Some t\<rparr> rows
               = rows @ [\<lparr>id_col = ?k, text_col = Some t\<rparr>]"
    by (intro insort_largest) simp
  with n show ?thesis by (simp add: sql_insert_def)
qed

lemma key_order_post:
  "sorted (map id_col rows) \<Longrightarrow> sorted (map id_col (snd (post_thing draws thing rows)))"
  by (auto simp: post_thing_def sql_insert_def sorted_insort_key split: option.splits)

lemma keys_after_update:
  "map id_col (map (\<lambda>r. if id_col r = k then r\<lparr>text_col := t\<rparr> else r) rows) = map id_col rows"
  by (induction rows) auto

lemma key_order_put:
  "sorted (map id_col rows) \<Longrightarrow> sorted (map id_col (snd (put_thing key_of ident new_thing rows)))"
  by (cases "session_get key_of ident rows")
    (simp_all only: put_thing_def sql_update_def option.case sum.case snd_conv keys_after_update)

lemma key_order_delete:
  "sorted (map id_col rows) \<Longrightarrow> sorted (map id_col (snd (delete_thing key_of ident rows)))"
  by (auto simp: delete_thing_def sql_delete_def sorted_map sorted_wrt_filter split: option.splits)

lemma key_order_serve:
  "sorted (map id_col rows) \<Longrightarrow> sorted (map id_col (serve key_of req rows))"
  by (cases req)
    (simp_all add: snd_get_thing snd_get_things key_order_post key_order_put key_order_delete)

lemma key_order_reached: "sorted (map id_col (fold (serve key_of) reqs []))"
proof -
  have "sorted (map id_col rows) \<Longrightarrow> sorted (map id_col (fold (serve key_of) reqs rows))" for rows
    by (induction reqs arbitrary: rows) (simp_all add: key_order_serve)
  then show ?thesis by simp
qed

section \<open>Properties of the service\<close>

text \<open>
  Claim C1. For every table and every path id that no row matches, DELETE and PUT do not
  answer with a not-found result: \<^verbatim>\<open>delete_thing\<close> raises on deleting the absent
  record and \<^verbatim>\<open>put_thing\<close> raises on assigning to its attribute. Both raise before
  the commit, and the table they leave behind is the table they were given, row for row.
\<close>

theorem missing_id_put_delete_raise:
  assumes "\<not> row_matches key_of ident rows"
  shows "delete_thing key_of ident rows = (Inl UnmappedInstanceError, rows)
       \<and> put_thing key_of ident new_thing rows = (Inl AttributeError, rows)"
  using session_get_absent[OF assms] by (simp add: delete_thing_def put_thing_def)

theorem missing_id_put_delete_raise_witness:
  "\<not> row_matches decimal_key ''7'' [\<lparr>id_col = 1, text_col = Some ''a''\<rparr>]
   \<and> delete_thing decimal_key ''7'' [\<lparr>id_col = 1, text_col = Some ''a''\<rparr>]
       = (Inl UnmappedInstanceError, [\<lparr>id_col = 1, text_col = Some ''a''\<rparr>])
   \<and> put_thing decimal_key ''7'' \<lparr>id_field = None, text_field = ''b''\<rparr> [\<lparr>id_col = 1, text_col = Some ''a''\<rparr>]
       = (Inl AttributeError, [\<lparr>id_col = 1, text_col = Some ''a''\<rparr>])"
proof -
  have h: "\<not> row_matches decimal_key ''7'' [\<lparr>id_col = 1, text_col = Some ''a''\<rparr>]"
    by (simp add: row_matches_def decimal_key_def digit_of_def has_key_def)
  show ?thesis
    using h missing_id_put_delete_raise [OF h, of "\<lparr>id_field = None, text_field = ''b''\<rparr>"] by simp
qed

text \<open>
  Claim C2. Round trip. When POST with a body of text \<open>t\<close> inserts a row and the store
  assigns it the key \<open>rid\<close>, then GET with a path id that the store reads as \<open>rid\<close>
  answers with the record whose id is \<open>rid\<close> and whose text is \<open>t\<close>.
\<close>

theorem post_then_get_round_trip:
  assumes "sql_insert draws (Some (text_field thing)) rows = Inr (rid, rows')"
    and "key_of ident = Some rid"
  shows "post_thing draws thing rows = (Inr (), rows')
       \<and> get_thing key_of ident rows'
           = (Inr (Some \<lparr>id_field = Some rid, text_field = text_field thing\<rparr>), rows')"
proof -
  from assms(1) have n: "new_rowid draws rows = Some rid"
    and r: "rows' = insort_key id_col \<lparr>id_col = rid, text_col = Some (text_field thing)\<rparr> rows"
    by (auto simp: sql_insert_def split: option.splits)
  from new_rowid_fresh[OF n]
  have "find (\<lambda>r. id_col r = rid) rows' = Some \<lparr>id_col = rid, text_col = Some (text_field thing)\<rparr>"
    unfolding r by (intro find_insort_fresh) simp_all
  with assms show ?thesis
    by (simp add: post_thing_def get_thing_def session_get_def ThingModel_new_def)
qed

theorem post_then_get_round_trip_witness:
  "sql_insert (\<lambda>i. 0) (Some (text_field \<lparr>id_field = Some 9, text_field = ''abc''\<rparr>))
       [\<lparr>id_col = 1, text_col = Some ''a''\<rparr>, \<lparr>id_col = 3, text_col = Some ''c''\<rparr>]
     = Inr (4, [\<lparr>id_col = 1, text_col = Some ''a''\<rparr>, \<lparr>id_col = 3, text_col = Some ''c''\<rparr>,
                \<lparr>id_col = 4, text_col = Some ''abc''\<rparr>])
   \<and> decimal_key ''4'' = Some 4
   \<and> get_thing decimal_key ''4''
       [\<lparr>id_col = 1, text_col = Some ''a''\<rparr>, \<lparr>id_col = 3, text_col = Some ''c''\<rparr>,
        \<lparr>id_col = 4, text_col = Some ''abc''\<rparr>]
     = (Inr (Some \<lparr>id_field = Some 4, text_field = ''abc''\<rparr>),
        [\<lparr>id_col = 1, text_col = Some ''a''\<rparr>, \<lparr>id_col = 3, text_col = Some ''c''\<rparr>,
         \<lparr>id_col = 4, text_col = Some ''abc''\<rparr>])"
proof -
  have h1: "sql_insert (\<lambda>i. 0) (Some (text_field \<lparr>id_field = Some 9, text_field = ''abc''\<rparr>))
       [\<lparr>id_col = 1, text_col = Some ''a''\<rparr>, \<lparr>id_col = 3, text_col = Some ''c''\<rparr>]
     = Inr (4, [\<lparr>id_col = 1, text_col = Some ''a''\<rparr>, \<lparr>id_col = 3, text_col = Some ''c''\<rparr>,
                \<lparr>id_col = 4, text_col = Some ''abc''\<rparr>])"
    by (simp add: sql_insert_def new_rowid_def MAX_ROWID_def)
  have h2: "decimal_key ''4'' = Some 4"
    by (simp add: decimal_key_def digit_of_def)
  show ?thesis
    using h1 h2 post_then_get_round_trip [where key_of = decimal_key and ident = "''4''", OF h1 h2]
    by simp
qed

text \<open>
  Claim C3. Starting from the empty table, after the POST requests of a list of \<open>N\<close>
  bodies have all succeeded, GET /things answers with a list of exactly \<open>N\<close> entries.
  (By \<open>post_all_succeeds\<close> they do all succeed as long as \<open>N\<close> keys exist.)
\<close>

theorem list_reflects_inserts:
  assumes "post_all things [] = Inr rows"
  shows "\<exists>ms. get_things rows = (Inr ms, rows) \<and> length ms = length things"
proof -
  from post_all_length[OF assms] have "length rows = length things" "non_null_text rows"
    by (simp_all add: non_null_text_def)
  with thing_models_non_null[of rows] show ?thesis
    by (auto simp: get_things_def)
qed

theorem list_reflects_inserts_witness:
  "post_all [(\<lambda>i::nat. 0::int, \<lparr>id_field = None, text_field = ''a''\<rparr>),
              (\<lambda>i::nat. 5::int, \<lparr>id_field = Some 7, text_field = ''b''\<rparr>)] []
     = Inr [\<lparr>id_col = 1, text_col = Some ''a''\<rparr>, \<lparr>id_col = 2, text_col = Some ''b''\<rparr>]
   \<and> (\<exists>ms. get_things [\<lparr>id_col = 1, text_col = Some ''a''\<rparr>, \<lparr>id_col = 2, text_col = Some ''b''\<rparr>]
            = (Inr ms, [\<lparr>id_col = 1, text_col = Some ''a''\<rparr>, \<lparr>id_col = 2, text_col = Some ''b''\<rparr>])
          \<and> length ms = length [(\<lambda>i::nat. 0::int, \<lparr>id_field = None, text_field = ''a''\<rparr>),
              (\<lambda>i::nat. 5::int, \<lparr>id_field = Some 7, text_field = ''b''\<rparr>)])"
proof -
  have h: "post_all [(\<lambda>i::nat. 0::int, \<lparr>id_field = None, text_field = ''a''\<rparr>),
              (\<lambda>i::nat. 5::int, \<lparr>id_field = Some 7, text_field = ''b''\<rparr>)] []
     = Inr [\<lparr>id_col = 1, text_col = Some ''a''\<rparr>, \<lparr>id_col = 2, text_col = Some ''b''\<rparr>]"
    by (simp add: post_thing_def sql_insert_def new_rowid_def MAX_ROWID_def)
  from h list_reflects_inserts [OF h] show ?thesis by (rule conjI)
qed

text \<open>
  Claim C4. For every table and every path id that matches a row, PUT with a body of text
  \<open>t\<close> succeeds, and GET with the same path id on the table it leaves answers with a
  record whose text is \<open>t\<close> (and whose id is the key the path id is read as).
\<close>

theorem put_then_get:
  assumes "row_matches key_of ident rows"
  shows "\<exists>rows'. put_thing key_of ident new_thing rows = (Inr (), rows')
       \<and> get_thing key_of ident rows'
           = (Inr (Some \<lparr>id_field = key_of ident, text_field = text_field new_thing\<rparr>), rows')"
proof -
  from session_get_present[OF assms] obtain r where
    g: "session_get key_of ident rows = Some r" and k: "key_of ident = Some (id_col r)"
    and m: "r \<in> set rows" by blast
  from assms k have hk: "has_key rows (id_col r)" by (simp add: row_matches_def)
  from find_update[OF hk, of "Some (text_field new_thing)"] g k show ?thesis
    by (auto simp: put_thing_def sql_update_def get_thing_def session_get_def ThingModel_new_def)
qed

theorem put_then_get_witness:
  "row_matches decimal_key ''2'' [\<lparr>id_col = 1, text_col = Some ''a''\<rparr>, \<lparr>id_col = 2, text_col = Some ''b''\<rparr>]
   \<and> (\<exists>rows'. put_thing decimal_key ''2'' \<lparr>id_field = Some 1, text_field = ''xyz''\<rparr>
                 [\<lparr>id_col = 1, text_col = Some ''a''\<rparr>, \<lparr>id_col = 2, text_col = Some ''b''\<rparr>] = (Inr (), rows')
        \<and> get_thing decimal_key ''2'' rows'
            = (Inr (Some \<lparr>id_field = Some 2, text_field = ''xyz''\<rparr>), rows'))"
proof -
  have h: "row_matches decimal_key ''2''
             [\<lparr>id_col = 1, text_col = Some ''a''\<rparr>, \<lparr>id_col = 2, text_col = Some ''b''\<rparr>]"
    by (simp add: row_matches_def decimal_key_def digit_of_def has_key_def)
  have k: "decimal_key ''2'' = Some 2"
    by (simp add: decimal_key_def digit_of_def)
  show ?thesis
    using h put_then_get [OF h, of "\<lparr>id_field = Some 1, text_field = ''xyz''\<rparr>"]
    by (simp add: k)
qed

text \<open>
  Claim C5. For every table and every path id that matches a row, DELETE succeeds, and GET
  with the same path id on the table it leaves answers with no record.
\<close>

theorem delete_then_get:
  assumes "row_matches key_of ident rows"
  shows "\<exists>rows'. delete_thing key_of ident rows = (Inr (), rows')
       \<and> get_thing key_of ident rows' = (Inr None, rows')"
proof -
  from session_get_present[OF assms] obtain r where
    g: "session_get key_of ident rows = Some r" and k: "key_of ident = Some (id_col r)" by blast
  have "find (\<lambda>x. id_col x = id_col r) (sql_delete (id_col r) rows) = None"
    by (rule find_no_key) (rule has_key_delete)
  with g k show ?thesis
    by (simp add: delete_thing_def get_thing_def session_get_def)
qed

theorem delete_then_get_witness:
  "row_matches decimal_key ''1'' [\<lparr>id_col = 1, text_col = Some ''a''\<rparr>, \<lparr>id_col = 2, text_col = Some ''b''\<rparr>]
   \<and> (\<exists>rows'. delete_thing decimal_key ''1''
                 [\<lparr>id_col = 1, text_col = Some ''a''\<rparr>, \<lparr>id_col = 2, text_col = Some ''b''\<rparr>] = (Inr (), rows')
        \<and> get_thing decimal_key ''1'' rows' = (Inr None, rows'))"
proof -
  have h: "row_matches decimal_key ''1''
             [\<lparr>id_col = 1, text_col = Some ''a''\<rparr>, \<lparr>id_col = 2, text_col = Some ''b''\<rparr>]"
    by (simp add: row_matches_def decimal_key_def digit_of_def has_key_def)
  show ?thesis
    using h delete_then_get [OF h] by simp
qed

text \<open>
  Claim C6. For every table and every path id that no row matches, GET answers with no
  record, and with no error. The path id is any string: one that the store reads as no
  integer at all matches no row, and is answered in the same way.
\<close>

theorem get_absent_is_empty:
  assumes "\<not> row_matches key_of ident rows"
  shows "get_thing key_of ident rows = (Inr None, rows)"
  using session_get_absent[OF assms] by (simp add: get_thing_def)

theorem get_absent_is_empty_witness:
  "\<not> row_matches decimal_key ''abc'' [\<lparr>id_col = 1, text_col = Some ''a''\<rparr>]
   \<and> get_thing decimal_key ''abc'' [\<lparr>id_col = 1, text_col = Some ''a''\<rparr>]
       = (Inr None, [\<lparr>id_col = 1, text_col = Some ''a''\<rparr>])"
proof -
  have h: "\<not> row_matches decimal_key ''abc'' [\<lparr>id_col = 1, text_col = Some ''a''\<rparr>]"
    by (simp add: row_matches_def decimal_key_def digit_of_def)
  show ?thesis
    using h get_absent_is_empty [OF h] by simp
qed

text \<open>
  Claim C7. Whatever the database file holds when the process starts, with or without a
  \<^verbatim>\<open>thing\<close> table and whatever its rows, after the startup hook the table exists and is
  empty.
\<close>

theorem startup_empties_table: "on_startup db = Some []"
  by (simp add: on_startup_def create_db_and_tables_def create_all_def drop_all_def)

text \<open>
  Claim C8. Every row of every table reached from the empty table by any sequence of the
  five requests has a non-null text, and each single request, on any table whose rows
  all have a non-null text, leaves such a table.
\<close>

theorem text_never_null:
  "non_null_text (fold (serve key_of) reqs [])
   \<and> (non_null_text rows \<longrightarrow> non_null_text (serve key_of req rows))"
proof
  have "non_null_text []" by (simp add: non_null_text_def)
  then show "non_null_text (fold (serve key_of) reqs [])" by (rule non_null_fold)
  show "non_null_text rows \<longrightarrow> non_null_text (serve key_of req rows)"
    by (simp add: non_null_serve)
qed

theorem text_never_null_witness:
  "non_null_text [\<lparr>id_col = 1, text_col = Some ''a''\<rparr>]
   \<and> non_null_text (serve decimal_key (PutThing ''1'' \<lparr>id_field = None, text_field = ''b''\<rparr>)
        [\<lparr>id_col = 1, text_col = Some ''a''\<rparr>])"
proof -
  have h: "non_null_text [\<lparr>id_col = 1, text_col = Some ''a''\<rparr>]"
    by (simp add: non_null_text_def)
  show ?thesis
    using h text_never_null [of decimal_key "[]" "[\<lparr>id_col = 1, text_col = Some ''a''\<rparr>]"
        "PutThing ''1'' \<lparr>id_field = None, text_field = ''b''\<rparr>"]
    by simp
qed

text \<open>
  Claim C9. A POST that creates a row adds exactly one row, whose text is the text of the
  body and whose id is the key the store chose, which is the id of no row already in the
  table; the rows that were there are all still there, unchanged and in the same order.
  That holds whether the store took one more than the largest key or drew the key at
  random. The id field of the body is ignored: the request does the same whatever that
  field holds.
\<close>

theorem post_assigns_fresh_id:
  assumes "post_thing draws thing rows = (Inr (), rows')"
  shows "(\<exists>rid. new_rowid draws rows = Some rid
            \<and> \<not> has_key rows rid
            \<and> filter (\<lambda>r. id_col r = rid) rows'
                = [\<lparr>id_col = rid, text_col = Some (text_field thing)\<rparr>]
            \<and> filter (\<lambda>r. id_col r \<noteq> rid) rows' = rows)
       \<and> post_thing draws (thing\<lparr>id_field := x\<rparr>) rows = post_thing draws thing rows"
proof
  from post_thing_cases[OF assms] obtain rid where
    n: "new_rowid draws rows = Some rid"
    and r: "rows' = insort_key id_col \<lparr>id_col = rid, text_col = Some (text_field thing)\<rparr> rows"
    by blast
  from new_rowid_fresh[OF n] have f: "\<not> has_key rows rid" .
  have "filter (\<lambda>r. id_col r = rid) rows' = [\<lparr>id_col = rid, text_col = Some (text_field thing)\<rparr>]"
    unfolding r using f by (intro filter_insort_same) simp_all
  moreover have "filter (\<lambda>r. id_col r \<noteq> rid) rows' = rows"
    unfolding r using f by (intro filter_insort_others) simp_all
  ultimately show "\<exists>rid. new_rowid draws rows = Some rid
            \<and> \<not> has_key rows rid
            \<and> filter (\<lambda>r. id_col r = rid) rows'
                = [\<lparr>id_col = rid, text_col = Some (text_field thing)\<rparr>]
            \<and> filter (\<lambda>r. id_col r \<noteq> rid) rows' = rows"
    using n f by blast
  show "post_thing draws (thing\<lparr>id_field := x\<rparr>) rows = post_thing draws thing rows"
    by (simp add: post_thing_def)
qed

text \<open>
  The witness is a table whose largest key is \<open>MAX_ROWID\<close>, where the store draws the key:
  the first candidate, 1, is in use, the second, 5, is not, and the new row is read
  between the two old ones.
\<close>

theorem post_assigns_fresh_id_witness:
  "post_thing (\<lambda>i. if i = 0 then 0 else 4) \<lparr>id_field = Some 1, text_field = ''n''\<rparr>
       [\<lparr>id_col = 1, text_col = Some ''a''\<rparr>, \<lparr>id_col = 9223372036854775807, text_col = Some ''b''\<rparr>]
     = (Inr (), [\<lparr>id_col = 1, text_col = Some ''a''\<rparr>, \<lparr>id_col = 5, text_col = Some ''n''\<rparr>,
                 \<lparr>id_col = 9223372036854775807, text_col = Some ''b''\<rparr>])
   \<and> (\<exists>rid. new_rowid (\<lambda>i. if i = 0 then 0 else 4)
               [\<lparr>id_col = 1, text_col = Some ''a''\<rparr>,
                \<lparr>id_col = 9223372036854775807, text_col = Some ''b''\<rparr>] = Some rid
          \<and> \<not> has_key [\<lparr>id_col = 1, text_col = Some ''a''\<rparr>,
                        \<lparr>id_col = 9223372036854775807, text_col = Some ''b''\<rparr>] rid
          \<and> filter (\<lambda>r. id_col r = rid)
               [\<lparr>id_col = 1, text_col = Some ''a''\<rparr>, \<lparr>id_col = 5, text_col = Some ''n''\<rparr>,
                \<lparr>id_col = 9223372036854775807, text_col = Some ''b''\<rparr>]
              = [\<lparr>id_col = rid, text_col = Some ''n''\<rparr>])"
proof -
  have n: "new_rowid (\<lambda>i. if i = 0 then 0 else 4)
             [\<lparr>id_col = 1, text_col = Some ''a''\<rparr>,
              \<lparr>id_col = 9223372036854775807, text_col = Some ''b''\<rparr>] = Some 5"
  proof -
    have u: "[0..<100] = 0 # 1 # [2..<100]"
      by (simp add: upt_conv_Cons)
    show ?thesis
      unfolding new_rowid_def random_rowid_def u
      by (simp add: has_key_def MAX_ROWID_def)
  qed
  have h: "post_thing (\<lambda>i. if i = 0 then 0 else 4) \<lparr>id_field = Some 1, text_field = ''n''\<rparr>
       [\<lparr>id_col = 1, text_col = Some ''a''\<rparr>, \<lparr>id_col = 9223372036854775807, text_col = Some ''b''\<rparr>]
     = (Inr (), [\<lparr>id_col = 1, text_col = Some ''a''\<rparr>, \<lparr>id_col = 5, text_col = Some ''n''\<rparr>,
                 \<lparr>id_col = 9223372036854775807, text_col = Some ''b''\<rparr>])"
    by (simp add: post_thing_def sql_insert_def n)
  from post_assigns_fresh_id [OF h, of None] have
    "\<exists>rid. new_rowid (\<lambda>i. if i = 0 then 0 else 4)
               [\<lparr>id_col = 1, text_col = Some ''a''\<rparr>,
                \<lparr>id_col = 9223372036854775807, text_col = Some ''b''\<rparr>] = Some rid
          \<and> \<not> has_key [\<lparr>id_col = 1, text_col = Some ''a''\<rparr>,
                        \<lparr>id_col = 9223372036854775807, text_col = Some ''b''\<rparr>] rid
          \<and> filter (\<lambda>r. id_col r = rid)
               [\<lparr>id_col = 1, text_col = Some ''a''\<rparr>, \<lparr>id_col = 5, text_col = Some ''n''\<rparr>,
                \<lparr>id_col = 9223372036854775807, text_col = Some ''b''\<rparr>]
              = [\<lparr>id_col = rid, text_col = Some ''n''\<rparr>]"
    by (simp only: ThingModel.simps) blast
  with h show ?thesis by (rule conjI)
qed

text \<open>
  The same request on a table whose largest key is below \<open>MAX_ROWID\<close>: the key is one
  more than the largest, whatever would be drawn, and the new row is read last.
\<close>

lemma post_thing_largest_plus_one_example:
  "post_thing draws \<lparr>id_field = Some 1, text_field = ''n''\<rparr>
       [\<lparr>id_col = 1, text_col = Some ''a''\<rparr>, \<lparr>id_col = 2, text_col = Some ''b''\<rparr>]
     = (Inr (), [\<lparr>id_col = 1, text_col = Some ''a''\<rparr>, \<lparr>id_col = 2, text_col = Some ''b''\<rparr>,
                 \<lparr>id_col = 3, text_col = Some ''n''\<rparr>])"
  by (simp add: post_thing_def sql_insert_def new_rowid_def MAX_ROWID_def)

text \<open>
  Claim C10. For every table and every path id read as a key \<open>k\<close> that is in the table, PUT
  succeeds and leaves a table with the same number of rows, in which every row keeps
  its id, the rows of key \<open>k\<close> differ from before in their text only, which is now the
  text of the body, and every other row is what it was. The id field of the body has no
  effect on the outcome.
\<close>

theorem put_thing_frame:
  assumes "key_of ident = Some k" and "has_key rows k"
  shows "(\<exists>rows'. put_thing key_of ident new_thing rows = (Inr (), rows')
          \<and> length rows' = length rows
          \<and> (\<forall>i<length rows.
                id_col (rows' ! i) = id_col (rows ! i)
              \<and> rows' ! i = (if id_col (rows ! i) = k
                             then (rows ! i)\<lparr>text_col := Some (text_field new_thing)\<rparr>
                             else rows ! i)))
       \<and> put_thing key_of ident (new_thing\<lparr>id_field := x\<rparr>) rows
           = put_thing key_of ident new_thing rows"
proof -
  from find_has_key[OF assms(2)] obtain r where
    "find (\<lambda>r. id_col r = k) rows = Some r" "id_col r = k" by blast
  with assms(1) show ?thesis
    by (simp add: put_thing_def sql_update_def session_get_def)
qed


theorem put_thing_frame_witness:
  "decimal_key ''2'' = Some 2
   \<and> has_key [\<lparr>id_col = 1, text_col = Some ''a''\<rparr>, \<lparr>id_col = 2, text_col = Some ''b''\<rparr>] 2
   \<and> put_thing decimal_key ''2'' \<lparr>id_field = Some 1, text_field = ''z''\<rparr>
       [\<lparr>id_col = 1, text_col = Some ''a''\<rparr>, \<lparr>id_col = 2, text_col = Some ''b''\<rparr>]
     = (Inr (), [\<lparr>id_col = 1, text_col = Some ''a''\<rparr>, \<lparr>id_col = 2, text_col = Some ''z''\<rparr>])"
proof -
  have h1: "decimal_key ''2'' = Some 2"
    by (simp add: decimal_key_def digit_of_def)
  have h2: "has_key [\<lparr>id_col = 1, text_col = Some ''a''\<rparr>, \<lparr>id_col = 2, text_col = Some ''b''\<rparr>] 2"
    by (simp add: has_key_def)
  show ?thesis
    using h1 h2 put_thing_frame [where key_of = decimal_key and ident = "''2''"
        and new_thing = "\<lparr>id_field = Some 1, text_field = ''z''\<rparr>" and x = None, OF h1 h2]
    by (simp add: put_thing_def session_get_def sql_update_def)
qed

end
